theory Spec2Isabelle
  imports Main "HOL-Library.Word"
begin

unbundle bit_operations_syntax

section \<open>JavaScript primitives used by the subnet calculator\<close>

text \<open>
  The calculator is TypeScript. Its numbers are IEEE doubles, its bit operators work on
  32-bit integers, and its strings are sequences of code units. The model keeps these
  apart:
  \<^item> a number that the code has already checked to be an integer is an \<open>int\<close>;
  \<^item> the result of \<open>parseInt\<close>, which may be \<open>NaN\<close> or infinite, is a \<open>jsnum\<close>;
  \<^item> the operands of \<open><<\<close>, \<open>>>>\<close>, \<open>&\<close>, \<open>|\<close> and \<open>~\<close> pass through \<open>32 word\<close>;
  \<^item> a string is a \<open>string\<close>, one \<open>char\<close> for each code unit below 256.
  Negative zero is not kept apart from zero: no operation of the calculator tells them apart.
\<close>

subsection \<open>Numbers\<close>

datatype jsnum = NaN | PosInf | NegInf | Num int

function bit_length :: "int \<Rightarrow> nat" where
  "bit_length a = (if a \<le> 0 then 0 else Suc (bit_length (a div 2)))"
  by auto

termination
  by (relation "measure nat") auto

declare bit_length.simps [simp del]

text \<open>
  \<open>fl v\<close> is the double nearest to the integer \<open>v\<close>: 53 significant bits, ties to the even
  significand, and an infinity beyond the largest finite double.
\<close>

definition fl :: "int \<Rightarrow> jsnum" where
  "fl v =
     (let a = \<bar>v\<bar> in
      if a < 2 ^ 53 then Num v
      else
        let e = bit_length a - 53;
            q = a div 2 ^ e;
            r = a mod 2 ^ e;
            h = 2 ^ (e - 1);
            m = (if r > h \<or> (r = h \<and> odd q) then q + 1 else q) * 2 ^ e
        in if m \<ge> 2 ^ 1024 then (if v < 0 then NegInf else PosInf)
           else Num (if v < 0 then - m else m))"

text \<open>\<open>ToInt32\<close> and \<open>ToUint32\<close> send \<open>NaN\<close> and the infinities to 0.\<close>

definition bits_of :: "jsnum \<Rightarrow> int" where
  "bits_of x = (case x of Num v \<Rightarrow> v | _ \<Rightarrow> 0)"

text \<open>\<open>a + b\<close> on numbers.\<close>

fun js_add :: "jsnum \<Rightarrow> jsnum \<Rightarrow> jsnum" where
  "js_add (Num a) (Num b) = fl (a + b)"
| "js_add NaN _ = NaN"
| "js_add _ NaN = NaN"
| "js_add PosInf NegInf = NaN"
| "js_add NegInf PosInf = NaN"
| "js_add PosInf _ = PosInf"
| "js_add NegInf _ = NegInf"
| "js_add _ PosInf = PosInf"
| "js_add _ NegInf = NegInf"

text \<open>\<open>a !== b\<close> on numbers: \<open>NaN\<close> differs from everything, itself included.\<close>

definition js_neq :: "jsnum \<Rightarrow> jsnum \<Rightarrow> bool" where
  "js_neq a b = (a = NaN \<or> b = NaN \<or> a \<noteq> b)"

subsection \<open>32-bit operators\<close>

text \<open>
  Each operator converts its operands with \<open>ToInt32\<close> (here \<open>word_of_int\<close>), and a shift
  uses only the low five bits of its count. \<open><<\<close>, \<open>&\<close>, \<open>|\<close> and \<open>~\<close> give a signed
  result, \<open>>>>\<close> an unsigned one.
\<close>

definition shl :: "int \<Rightarrow> int \<Rightarrow> int" where
  "shl x k = sint (push_bit (nat (k mod 32)) (word_of_int x :: 32 word))"

definition ushr :: "int \<Rightarrow> int \<Rightarrow> int" where
  "ushr x k = uint (drop_bit (nat (k mod 32)) (word_of_int x :: 32 word))"

definition band :: "int \<Rightarrow> int \<Rightarrow> int" where
  "band x y = sint ((word_of_int x :: 32 word) AND word_of_int y)"

definition bor :: "int \<Rightarrow> int \<Rightarrow> int" where
  "bor x y = sint ((word_of_int x :: 32 word) OR word_of_int y)"

definition bnot :: "int \<Rightarrow> int" where
  "bnot x = sint (NOT (word_of_int x :: 32 word))"

text \<open>
  \<open>Math.pow(2, k)\<close> for an integer \<open>k \<ge> 0\<close>. The calculator forms no other exponent:
  a prefix length is checked against 0..32 or 0..128 before it is used, and \<open>main.ts\<close>
  passes \<open>generateSubnetList\<close> the prefix length of a finished calculation of the same
  IP version.
\<close>

definition pow2 :: "int \<Rightarrow> int" where
  "pow2 k = 2 ^ nat k"

subsection \<open>Strings\<close>

text \<open>\<open>s.split(c)\<close> for a one-character separator: never empty, \<open>''''\<close> gives \<open>['''']\<close>.\<close>

fun split_char :: "char \<Rightarrow> string \<Rightarrow> string list" where
  "split_char c [] = [[]]"
| "split_char c (x # xs) =
     (if x = c then [] # split_char c xs
      else (case split_char c xs of
              w # ws \<Rightarrow> (x # w) # ws
            | [] \<Rightarrow> [[x]]))"

text \<open>\<open>s.split('::')\<close>: matches are taken left to right and do not overlap.\<close>

fun split_dcolon :: "string \<Rightarrow> string list" where
  "split_dcolon [] = [[]]"
| "split_dcolon [x] = [[x]]"
| "split_dcolon (x # y # r) =
     (if x = CHR '':'' \<and> y = CHR '':'' then [] # split_dcolon r
      else (case split_dcolon (y # r) of
              w # ws \<Rightarrow> (x # w) # ws
            | [] \<Rightarrow> [[x]]))"

text \<open>\<open>s.startsWith(p)\<close> and \<open>s.includes(p)\<close>.\<close>

definition startsWith :: "string \<Rightarrow> string \<Rightarrow> bool" where
  "startsWith s p = (take (length p) s = p)"

fun includes_str :: "string \<Rightarrow> string \<Rightarrow> bool" where
  "includes_str [] p = (p = [])"
| "includes_str (x # xs) p = (startsWith (x # xs) p \<or> includes_str xs p)"

text \<open>\<open>xs.join(sep)\<close>.\<close>

fun join :: "string \<Rightarrow> string list \<Rightarrow> string" where
  "join sep [] = []"
| "join sep [x] = x"
| "join sep (x # y # ys) = x @ sep @ join sep (y # ys)"

text \<open>\<open>s.padStart(n, '0')\<close>.\<close>

definition padStart0 :: "nat \<Rightarrow> string \<Rightarrow> string" where
  "padStart0 n s = replicate (n - length s) (CHR ''0'') @ s"

subsection \<open>Numbers to text and back\<close>

definition digit_char :: "int \<Rightarrow> char" where
  "digit_char d = (if d < 10 then char_of (48 + d) else char_of (87 + d))"

function dec_digits :: "int \<Rightarrow> string" where
  "dec_digits n = (if n < 10 then [digit_char n] else dec_digits (n div 10) @ [digit_char (n mod 10)])"
  by auto

termination
  by (relation "measure nat") auto

declare dec_digits.simps [simp del]

function hex_digits :: "int \<Rightarrow> string" where
  "hex_digits n = (if n < 16 then [digit_char n] else hex_digits (n div 16) @ [digit_char (n mod 16)])"
  by auto

termination
  by (relation "measure nat") auto

declare hex_digits.simps [simp del]

text \<open>
  \<open>String(n)\<close> for an integer below \<open>10^21\<close> in magnitude, where JavaScript prints every
  digit; the calculator prints octets and prefix lengths this way.
\<close>

definition num_to_string :: "int \<Rightarrow> string" where
  "num_to_string n = (if n < 0 then CHR ''-'' # dec_digits (- n) else dec_digits n)"

text \<open>\<open>x.toString(16)\<close>.\<close>

definition toString16 :: "jsnum \<Rightarrow> string" where
  "toString16 x =
     (case x of
        NaN \<Rightarrow> ''NaN''
      | PosInf \<Rightarrow> ''Infinity''
      | NegInf \<Rightarrow> ''-Infinity''
      | Num n \<Rightarrow> (if n < 0 then CHR ''-'' # hex_digits (- n) else hex_digits n))"

text \<open>
  \<open>parseInt(s, radix)\<close> for radix 10 or 16: white space is skipped, then an optional
  sign, for radix 16 an optional \<open>0x\<close>, then the longest run of digits; whatever follows
  is ignored, and no digit at all gives \<open>NaN\<close>. The value of the digits is rounded to a
  double. (For more than 20 decimal digits an engine may round a little differently; in a
  calculation such a number only fails the range check of an octet or of a prefix length.)
\<close>

definition is_ws :: "char \<Rightarrow> bool" where
  "is_ws c = (of_char c \<in> {9, 10, 11, 12, 13, 32, 160 :: int})"

definition digit_val :: "int \<Rightarrow> char \<Rightarrow> int option" where
  "digit_val radix c =
     (let n = of_char c :: int;
          d = (if 48 \<le> n \<and> n \<le> 57 then Some (n - 48)
               else if 97 \<le> n \<and> n \<le> 122 then Some (n - 87)
               else if 65 \<le> n \<and> n \<le> 90 then Some (n - 55)
               else None)
      in case d of Some v \<Rightarrow> (if v < radix then Some v else None) | None \<Rightarrow> None)"

definition is_digit :: "int \<Rightarrow> char \<Rightarrow> bool" where
  "is_digit radix c = (digit_val radix c \<noteq> None)"

definition digits_value :: "int \<Rightarrow> string \<Rightarrow> int" where
  "digits_value radix ds =
     foldl (\<lambda>a c. a * radix + (case digit_val radix c of Some d \<Rightarrow> d | None \<Rightarrow> 0)) 0 ds"

definition strip_sign :: "string \<Rightarrow> bool \<times> string" where
  "strip_sign s =
     (case s of
        [] \<Rightarrow> (False, [])
      | c # r \<Rightarrow> (if c = CHR ''-'' then (True, r) else if c = CHR ''+'' then (False, r) else (False, s)))"

definition strip_0x :: "int \<Rightarrow> string \<Rightarrow> string" where
  "strip_0x radix s =
     (if radix = 16 \<and> (take 2 s = ''0x'' \<or> take 2 s = ''0X'') then drop 2 s else s)"

definition parseInt :: "string \<Rightarrow> int \<Rightarrow> jsnum" where
  "parseInt s radix =
     (let (neg, s2) = strip_sign (dropWhile is_ws s);
          ds = takeWhile (is_digit radix) (strip_0x radix s2)
      in if ds = [] then NaN
         else fl (if neg then - digits_value radix ds else digits_value radix ds))"

section \<open>The result of a calculation\<close>

datatype IpVersion = IPv4 | IPv6

record SubnetInfo =
  network :: string
  broadcast :: "string option"
  firstHost :: "string option"
  lastHost :: "string option"
  subnetMask :: "string option"
  wildcardMask :: "string option"
  totalHosts :: int
  usableHosts :: int
  cidr :: int
  ipVersion :: IpVersion
  networkClass :: "string option"
  isPrivate :: "bool option"
  prefix :: "string option"

section \<open>IPv4\<close>

definition intToIPv4 :: "int \<Rightarrow> string" where
  "intToIPv4 n =
     join ''.'' (map num_to_string
       [band (ushr n 24) 0xFF, band (ushr n 16) 0xFF, band (ushr n 8) 0xFF, band n 0xFF])"

definition isPrivateIPv4 :: "int \<Rightarrow> bool" where
  "isPrivateIPv4 ipInt =
     (let ip = [band (ushr ipInt 24) 0xFF, band (ushr ipInt 16) 0xFF,
                band (ushr ipInt 8) 0xFF, band ipInt 0xFF]
      in ip ! 0 = 10 \<or> (ip ! 0 = 172 \<and> ip ! 1 \<ge> 16 \<and> ip ! 1 \<le> 31) \<or> (ip ! 0 = 192 \<and> ip ! 1 = 168))"

text \<open>
  The callback of \<open>ipParts.map\<close>: \<open>null\<close> (here \<open>None\<close>) when \<open>parseInt\<close> gives \<open>NaN\<close>
  or a number outside 0..255.
\<close>

definition parse_octet :: "string \<Rightarrow> int option" where
  "parse_octet part =
     (case parseInt part 10 of
        Num v \<Rightarrow> (if v < 0 \<or> v > 255 then None else Some v)
      | _ \<Rightarrow> None)"

definition ipInt_of :: "int list \<Rightarrow> int" where
  "ipInt_of octets = shl (octets ! 0) 24 + shl (octets ! 1) 16 + shl (octets ! 2) 8 + octets ! 3"

definition subnetMask_of :: "int \<Rightarrow> int" where
  "subnetMask_of hostBits = ushr (shl 0xFFFFFFFF hostBits) 0"

definition networkInt_of :: "int \<Rightarrow> int \<Rightarrow> int" where
  "networkInt_of ipInt c = ushr (band ipInt (subnetMask_of (32 - c))) 0"

definition broadcastInt_of :: "int \<Rightarrow> int \<Rightarrow> int" where
  "broadcastInt_of ipInt c = ushr (bor (networkInt_of ipInt c) (ushr 0xFFFFFFFF c)) 0"

definition networkClass_of :: "int \<Rightarrow> string" where
  "networkClass_of firstOctet =
     (if firstOctet \<ge> 1 \<and> firstOctet \<le> 126 then ''A''
      else if firstOctet \<ge> 128 \<and> firstOctet \<le> 191 then ''B''
      else if firstOctet \<ge> 192 \<and> firstOctet \<le> 223 then ''C''
      else if firstOctet \<ge> 224 \<and> firstOctet \<le> 239 then ''D (Multicast)''
      else if firstOctet \<ge> 240 \<and> firstOctet \<le> 255 then ''E (Reserved)''
      else '''')"

text \<open>The body of \<open>calculateIPv4Subnet\<close> once the four octets are known.\<close>

definition ipv4_info :: "int list \<Rightarrow> int \<Rightarrow> SubnetInfo" where
  "ipv4_info octets c =
     (let ipInt = ipInt_of octets;
          hostBits = 32 - c;
          subnetMask = subnetMask_of hostBits;
          networkInt = networkInt_of ipInt c;
          broadcastInt = broadcastInt_of ipInt c;
          network = intToIPv4 networkInt;
          firstHostInt = networkInt + 1;
          lastHostInt = broadcastInt - 1;
          totalHosts = pow2 hostBits
      in \<lparr> network = network,
           broadcast = Some (intToIPv4 broadcastInt),
           firstHost = Some (if hostBits > 1 then intToIPv4 firstHostInt else network),
           lastHost = Some (if hostBits > 1 then intToIPv4 lastHostInt else network),
           subnetMask = Some (intToIPv4 subnetMask),
           wildcardMask = Some (intToIPv4 (ushr (bnot subnetMask) 0)),
           totalHosts = totalHosts,
           usableHosts = max 0 (totalHosts - 2),
           cidr = c,
           ipVersion = IPv4,
           networkClass = Some (networkClass_of (octets ! 0)),
           isPrivate = Some (isPrivateIPv4 networkInt),
           prefix = None \<rparr>)"

definition calculateIPv4Subnet :: "string \<Rightarrow> int \<Rightarrow> SubnetInfo option" where
  "calculateIPv4Subnet ip c =
     (if c < 0 \<or> c > 32 then None
      else
        let ipParts = split_char (CHR ''.'') ip in
        if length ipParts \<noteq> 4 then None
        else
          let octets = map parse_octet ipParts in
          if None \<in> set octets then None
          else Some (ipv4_info (map the octets) c))"

section \<open>IPv6\<close>

text \<open>
  \<open>xs[i]\<close> on an array: \<open>undefined\<close> (here \<open>None\<close>) outside the array. A string that
  is \<open>undefined\<close> or empty is falsy.
\<close>

definition at :: "'a list \<Rightarrow> nat \<Rightarrow> 'a option" where
  "at xs i = (if i < length xs then Some (xs ! i) else None)"

definition truthy :: "string option \<Rightarrow> bool" where
  "truthy s = (case s of None \<Rightarrow> False | Some t \<Rightarrow> t \<noteq> [])"

text \<open>
  \<open>expandIPv6\<close>. \<open>Array(missingParts)\<close> throws a \<open>RangeError\<close> for a negative length;
  the \<open>catch\<close> turns it into \<open>null\<close>.
\<close>

definition expandIPv6 :: "string \<Rightarrow> string option" where
  "expandIPv6 ip =
     (if includes_str ip ''::'' then
        let parts = split_dcolon ip in
        if length parts > 2 then None
        else
          let leftParts = (if truthy (at parts 0) then split_char (CHR '':'') (parts ! 0) else []);
              rightParts = (if truthy (at parts 1) then split_char (CHR '':'') (parts ! 1) else []);
              missingParts = 8 - int (length leftParts) - int (length rightParts)
          in if missingParts < 0 then None
             else Some (join '':'' (map (padStart0 4)
                          (leftParts @ replicate (nat missingParts) ''0000'' @ rightParts)))
      else
        let parts = split_char (CHR '':'') ip in
        if length parts \<noteq> 8 then None
        else Some (join '':'' (map (padStart0 4) parts)))"

text \<open>
  The loop of \<open>calculateIPv6Network\<close> over \<open>i = 0..7\<close>, with \<open>remainingBits\<close> as its
  state. \<open>parts[i]\<close> outside the array is \<open>undefined\<close>: \<open>join\<close> prints it as the empty
  string and \<open>parseInt\<close> reads it as \<open>NaN\<close>.
\<close>

fun network_parts :: "string list \<Rightarrow> nat list \<Rightarrow> int \<Rightarrow> string list" where
  "network_parts parts [] remainingBits = []"
| "network_parts parts (i # is) remainingBits =
     (if remainingBits \<ge> 16 then
        (case at parts i of Some p \<Rightarrow> p | None \<Rightarrow> []) # network_parts parts is (remainingBits - 16)
      else if remainingBits > 0 then
        (let hexVal = (case at parts i of Some p \<Rightarrow> parseInt p 16 | None \<Rightarrow> NaN);
             mask = band (shl 0xFFFF (16 - remainingBits)) 0xFFFF;
             networkVal = ushr (band (bits_of hexVal) mask) 0
         in padStart0 4 (hex_digits networkVal) # network_parts parts is 0)
      else ''0000'' # network_parts parts is 0)"

definition calculateIPv6Network :: "string \<Rightarrow> int \<Rightarrow> string" where
  "calculateIPv6Network expandedIP c =
     join '':'' (network_parts (split_char (CHR '':'') expandedIP) [0..<8] c)"

definition isPrivateIPv6 :: "string \<Rightarrow> bool" where
  "isPrivateIPv6 expandedIP =
     (startsWith expandedIP ''fd'' \<or> startsWith expandedIP ''fc'' \<or> startsWith expandedIP ''fe80''
      \<or> expandedIP = ''0000:0000:0000:0000:0000:0000:0000:0001'')"

definition MAX_SAFE_INTEGER :: int where
  "MAX_SAFE_INTEGER = 2 ^ 53 - 1"

text \<open>
  \<open>a - b\<close> on two finite integers with a finite result: the exact difference, rounded
  to a double.
\<close>

definition js_sub :: "int \<Rightarrow> int \<Rightarrow> int" where
  "js_sub a b = (case fl (a - b) of Num v \<Rightarrow> v | _ \<Rightarrow> a - b)"

definition calculateIPv6Subnet :: "string \<Rightarrow> int \<Rightarrow> SubnetInfo option" where
  "calculateIPv6Subnet ip c =
     (if c < 0 \<or> c > 128 then None
      else
        let expandedIP = expandIPv6 ip in
        if \<not> truthy expandedIP then None
        else
          let network = calculateIPv6Network (the expandedIP) c;
              hostBits = 128 - c;
              totalHosts = (if hostBits \<ge> 64 then MAX_SAFE_INTEGER else pow2 hostBits);
              usableHosts = max 0 (js_sub totalHosts 2)
          in Some \<lparr> network = network,
                    broadcast = None,
                    firstHost = Some network,
                    lastHost = Some network,
                    subnetMask = None,
                    wildcardMask = None,
                    totalHosts = totalHosts,
                    usableHosts = usableHosts,
                    cidr = c,
                    ipVersion = IPv6,
                    networkClass = None,
                    isPrivate = Some (isPrivateIPv6 (the expandedIP)),
                    prefix = Some (network @ ''/'' @ num_to_string c) \<rparr>)"

section \<open>The entry point\<close>

text \<open>
  \<open>calculateSubnet\<close>. An infinite prefix length (very many digits) passes \<open>isNaN\<close>
  and is then rejected by the range check of either branch.
\<close>

definition dispatch :: "string \<Rightarrow> int \<Rightarrow> SubnetInfo option" where
  "dispatch ipStr c =
     (if includes_str ipStr '':'' then calculateIPv6Subnet ipStr c else calculateIPv4Subnet ipStr c)"

definition calculateSubnet :: "string \<Rightarrow> SubnetInfo option" where
  "calculateSubnet input =
     (if \<not> includes_str input ''/'' then
        dispatch input (if includes_str input '':'' then 128 else 32)
      else
        let parts = split_char (CHR ''/'') input in
        (case parseInt (parts ! 1) 10 of
           NaN \<Rightarrow> None
         | PosInf \<Rightarrow> None
         | NegInf \<Rightarrow> None
         | Num c \<Rightarrow> dispatch (parts ! 0) c))"

section \<open>Containment\<close>

record CheckResult =
  result :: bool
  error :: "string option"

text \<open>
  A number read from an array: \<open>undefined\<close> outside it. In \<open><<\<close> and \<open>&\<close> an
  \<open>undefined\<close> operand counts as 0, in \<open>+\<close> it gives \<open>NaN\<close>.
\<close>

definition num_or_nan :: "jsnum option \<Rightarrow> jsnum" where
  "num_or_nan x = (case x of Some v \<Rightarrow> v | None \<Rightarrow> NaN)"

text \<open>
  The network text of a result read back as a number, as \<open>isIPv4InSubnet\<close> and
  \<open>generateSubnetList\<close> do: no octet is checked here.
\<close>

definition networkInt_of_text :: "string \<Rightarrow> jsnum" where
  "networkInt_of_text net =
     (let networkParts = split_char (CHR ''.'') net;
          networkOctets = map (\<lambda>part. parseInt part 10) networkParts
      in js_add
           (js_add
              (js_add (Num (shl (bits_of (num_or_nan (at networkOctets 0))) 24))
                      (Num (shl (bits_of (num_or_nan (at networkOctets 1))) 16)))
              (Num (shl (bits_of (num_or_nan (at networkOctets 2))) 8)))
           (num_or_nan (at networkOctets 3)))"

definition isIPv4InSubnet :: "string \<Rightarrow> SubnetInfo \<Rightarrow> CheckResult" where
  "isIPv4InSubnet ip subnetInfo =
     (let ipParts = split_char (CHR ''.'') ip in
      if length ipParts \<noteq> 4 then \<lparr> result = False, error = Some ''Invalid IPv4 address format'' \<rparr>
      else
        let octets = map parse_octet ipParts in
        if None \<in> set octets then \<lparr> result = False, error = Some ''Invalid IPv4 address'' \<rparr>
        else
          let ipInt = ipInt_of (map the octets);
              networkInt = networkInt_of_text (network subnetInfo);
              hostBits = 32 - cidr subnetInfo;
              subnetMask = ushr (shl 0xFFFFFFFF hostBits) 0;
              ipNetwork = ushr (band ipInt subnetMask) 0;
              targetNetwork = ushr (band (bits_of networkInt) subnetMask) 0
          in \<lparr> result = (ipNetwork = targetNetwork), error = None \<rparr>)"

text \<open>\<open>a !== b\<close> on array elements: two \<open>undefined\<close> are equal.\<close>

definition strict_neq :: "jsnum option \<Rightarrow> jsnum option \<Rightarrow> bool" where
  "strict_neq a b =
     (case (a, b) of
        (Some x, Some y) \<Rightarrow> js_neq x y
      | (None, None) \<Rightarrow> False
      | _ \<Rightarrow> True)"

text \<open>The loop of \<open>isIPv6InSubnet\<close> over \<open>i = 0..7\<close>; \<open>True\<close> when it runs to its end.\<close>

fun prefix_bits_match :: "jsnum list \<Rightarrow> jsnum list \<Rightarrow> nat list \<Rightarrow> int \<Rightarrow> bool" where
  "prefix_bits_match ipParts networkParts [] remainingBits = True"
| "prefix_bits_match ipParts networkParts (i # is) remainingBits =
     (if remainingBits \<ge> 16 then
        (if strict_neq (at ipParts i) (at networkParts i) then False
         else prefix_bits_match ipParts networkParts is (remainingBits - 16))
      else if remainingBits > 0 then
        (let mask = band (shl 0xFFFF (16 - remainingBits)) 0xFFFF
         in \<not> (band (bits_of (num_or_nan (at ipParts i))) mask
                \<noteq> band (bits_of (num_or_nan (at networkParts i))) mask))
      else True)"

definition isIPv6InSubnet :: "string \<Rightarrow> SubnetInfo \<Rightarrow> CheckResult" where
  "isIPv6InSubnet ip subnetInfo =
     (let expandedIP = expandIPv6 ip;
          expandedNetwork = expandIPv6 (network subnetInfo)
      in if \<not> truthy expandedIP \<or> \<not> truthy expandedNetwork
         then \<lparr> result = False, error = Some ''Invalid IPv6 address format'' \<rparr>
         else
           let ipParts = map (\<lambda>part. parseInt part 16) (split_char (CHR '':'') (the expandedIP));
               networkParts = map (\<lambda>part. parseInt part 16) (split_char (CHR '':'') (the expandedNetwork))
           in \<lparr> result = prefix_bits_match ipParts networkParts [0..<8] (cidr subnetInfo),
                error = None \<rparr>)"

definition isIPInSubnet :: "string \<Rightarrow> SubnetInfo \<Rightarrow> CheckResult" where
  "isIPInSubnet ip subnetInfo =
     (let cleanIP = (if includes_str ip ''/'' then split_char (CHR ''/'') ip ! 0 else ip)
      in if ipVersion subnetInfo = IPv4 then isIPv4InSubnet cleanIP subnetInfo
         else isIPv6InSubnet cleanIP subnetInfo)"

section \<open>Subnet lists\<close>

text \<open>\<open>a % b\<close> for integers and \<open>b > 0\<close>: the sign follows the dividend.\<close>

definition js_rem :: "int \<Rightarrow> int \<Rightarrow> int" where
  "js_rem a b = (if a < 0 then - ((- a) mod b) else a mod b)"

text \<open>
  \<open>xs[j] = v\<close> on an array: a write beyond the end extends the array and leaves holes
  (\<open>None\<close>) in between.
\<close>

definition set_at :: "'a option list \<Rightarrow> nat \<Rightarrow> 'a \<Rightarrow> 'a option list" where
  "set_at xs j v =
     (if j < length xs then xs[j := Some v]
      else xs @ replicate (j - length xs) None @ [Some v])"

definition get_at :: "'a option list \<Rightarrow> nat \<Rightarrow> 'a option" where
  "get_at xs j = (if j < length xs then xs ! j else None)"

text \<open>
  The inner loop \<open>for (j = incrementPart; j >= 0 && carry > 0; j--)\<close>; the first
  argument is \<open>j + 1\<close>.
\<close>

fun add_carry :: "nat \<Rightarrow> int \<Rightarrow> int \<Rightarrow> jsnum option list \<Rightarrow> jsnum option list" where
  "add_carry 0 carry bitsInPart newParts = newParts"
| "add_carry (Suc j) carry bitsInPart newParts =
     (if carry > 0 then
        (let increment = shl carry (16 - bitsInPart);
             v = band (bits_of (js_add (num_or_nan (get_at newParts j)) (Num increment))) 0xFFFF
         in add_carry j (carry div pow2 bitsInPart) bitsInPart (set_at newParts j (Num v)))
      else newParts)"

text \<open>\<open>newParts.map(part => part.toString(16).padStart(4, '0')).join(':')\<close>; \<open>map\<close> skips holes.\<close>

definition parts_to_text :: "jsnum option list \<Rightarrow> string" where
  "parts_to_text newParts =
     join '':'' (map (\<lambda>part. case part of Some v \<Rightarrow> padStart0 4 (toString16 v) | None \<Rightarrow> []) newParts)"

definition generateSubnetList :: "SubnetInfo \<Rightarrow> int \<Rightarrow> string list" where
  "generateSubnetList originalSubnet newCidr =
     (if newCidr \<le> cidr originalSubnet then []
      else
        let bitsAdded = newCidr - cidr originalSubnet;
            numSubnets = pow2 bitsAdded;
            maxDisplay = min numSubnets 256
        in if ipVersion originalSubnet = IPv4 then
             (let networkInt = networkInt_of_text (network originalSubnet);
                  hostBits = 32 - newCidr;
                  subnetSize = pow2 hostBits
              in map (\<lambda>i. intToIPv4 (bits_of (js_add networkInt (Num (int i * subnetSize))))
                            @ ''/'' @ num_to_string newCidr)
                     [0..<nat maxDisplay])
           else
             (let expandedNetwork = expandIPv6 (network originalSubnet) in
              if truthy expandedNetwork then
                (let parts = split_char (CHR '':'') (the expandedNetwork);
                     baseParts = map (\<lambda>part. Some (parseInt part 16)) parts;
                     incrementPart = (newCidr - 1) div 16;
                     bitsInPart = js_rem newCidr 16
                 in map (\<lambda>i. parts_to_text (add_carry (nat (incrementPart + 1)) (int i) bitsInPart baseParts)
                               @ ''/'' @ num_to_string newCidr)
                        [0..<nat maxDisplay])
              else []))"

text \<open>
  \<open>renderSubnetList\<close> in \<open>main.ts\<close> reports \<open>totalSubnets\<close> next to the list and shows
  \<open>displayCount\<close> of them.
\<close>

definition totalSubnets :: "SubnetInfo \<Rightarrow> int \<Rightarrow> int" where
  "totalSubnets originalSubnet newCidr = pow2 (newCidr - cidr originalSubnet)"

definition displayCount :: "SubnetInfo \<Rightarrow> int \<Rightarrow> int" where
  "displayCount originalSubnet newCidr = min (totalSubnets originalSubnet newCidr) 256"

section \<open>Reading a printed address\<close>

text \<open>
  The unsigned 32-bit address that the calculator reads from a dotted text: the parse of
  \<open>isIPv4InSubnet\<close> and \<open>generateSubnetList\<close>, taken as \<open>networkInt >>> 0\<close>. An
  entry of a subnet list is \<open>address/prefix\<close>; the address part is \<open>entry.split('/')[0]\<close>,
  as \<open>isIPInSubnet\<close> strips a prefix length.
\<close>

definition address_of_text :: "string \<Rightarrow> int" where
  "address_of_text s = ushr (bits_of (networkInt_of_text s)) 0"

definition entry_address :: "string \<Rightarrow> int" where
  "entry_address e = address_of_text (split_char (CHR ''/'') e ! 0)"

section \<open>Worked examples\<close>

text \<open>Two calculations, run once and used below.\<close>

lemma calc_192_168_1_0_24:
  "calculateSubnet ''192.168.1.0/24'' =
     Some \<lparr> network = ''192.168.1.0'', broadcast = Some ''192.168.1.255'',
            firstHost = Some ''192.168.1.1'', lastHost = Some ''192.168.1.254'',
            subnetMask = Some ''255.255.255.0'', wildcardMask = Some ''0.0.0.255'',
            totalHosts = 256, usableHosts = 254, cidr = 24, ipVersion = IPv4,
            networkClass = Some ''C'', isPrivate = Some True, prefix = None \<rparr>"
  by code_simp

lemma calc_2001_db8_64:
  "calculateSubnet ''2001:db8::/64'' =
     Some \<lparr> network = ''2001:0db8:0000:0000:0000:0000:0000:0000'', broadcast = None,
            firstHost = Some ''2001:0db8:0000:0000:0000:0000:0000:0000'',
            lastHost = Some ''2001:0db8:0000:0000:0000:0000:0000:0000'',
            subnetMask = None, wildcardMask = None,
            totalHosts = 9007199254740991, usableHosts = 9007199254740989,
            cidr = 64, ipVersion = IPv6, networkClass = None, isPrivate = Some False,
            prefix = Some ''2001:0db8:0000:0000:0000:0000:0000:0000/64'' \<rparr>"
  by code_simp

section \<open>Facts about the string primitives\<close>

lemma split_char_nonempty: "split_char c s \<noteq> []"
  by (induction s) (auto split: list.splits)

lemma split_char_no_sep: "c \<notin> set s \<Longrightarrow> split_char c s = [s]"
  by (induction s) auto

lemma split_char_first: "split_char c s ! 0 = takeWhile (\<lambda>x. x \<noteq> c) s"
  by (induction s) (auto split: list.splits simp: split_char_nonempty)

lemma startsWith_single: "startsWith (x # xs) [c] = (x = c)"
  by (simp add: startsWith_def)

lemma includes_single: "includes_str s [c] = (c \<in> set s)"
  by (induction s) (auto simp: startsWith_single)

lemma includes_first_mem: "includes_str s (c # p) \<Longrightarrow> c \<in> set s"
  by (induction s) (auto simp: startsWith_def)

lemma cleanIP_chars:
  "set (if includes_str ip ''/'' then split_char (CHR ''/'') ip ! 0 else ip) \<subseteq> set ip"
  by (auto simp: split_char_first dest: set_takeWhileD)

lemma expandIPv6_no_colon: "CHR '':'' \<notin> set s \<Longrightarrow> expandIPv6 s = None"
  using includes_first_mem [of s "CHR '':''" "[CHR '':'']"]
  by (auto simp: expandIPv6_def split_char_no_sep)

section \<open>Octets as text and as bits\<close>

lemma fl_small: "\<bar>v\<bar> < 2 ^ 53 \<Longrightarrow> fl v = Num v"
  by (simp add: fl_def)

lemma is_digit_10_range: "is_digit 10 c = (48 \<le> (of_char c :: int) \<and> (of_char c :: int) \<le> 57)"
  by (auto simp: is_digit_def digit_val_def Let_def)

lemma is_digit_10_plain:
  assumes "is_digit 10 c"
  shows "\<not> is_ws c" "c \<noteq> CHR ''-''" "c \<noteq> CHR ''+''" "c \<noteq> CHR ''.''"
  using assms by (auto simp: is_digit_10_range is_ws_def)

lemma digit_val_digit_char: "0 \<le> d \<Longrightarrow> d < 10 \<Longrightarrow> digit_val 10 (digit_char d) = Some d"
  by (simp add: digit_val_def digit_char_def Let_def)

lemma is_digit_digit_char: "0 \<le> d \<Longrightarrow> d < 10 \<Longrightarrow> is_digit 10 (digit_char d)"
  by (simp add: is_digit_def digit_val_digit_char)

lemma dec_digits_nonempty: "dec_digits n \<noteq> []"
  by (subst dec_digits.simps) simp

lemma dec_digits_are_digits: "0 \<le> n \<Longrightarrow> c \<in> set (dec_digits n) \<Longrightarrow> is_digit 10 c"
proof (induction n arbitrary: c rule: dec_digits.induct)
  case (1 n)
  show ?case
  proof (cases "n < 10")
    case True
    with 1(2,3) show ?thesis
      by (subst (asm) dec_digits.simps) (simp add: is_digit_digit_char)
  next
    case False
    then have d: "0 \<le> n div 10" "0 \<le> n mod 10" "n mod 10 < 10" by simp_all
    from 1(3) False have "c \<in> set (dec_digits (n div 10)) \<or> c = digit_char (n mod 10)"
      by (subst (asm) dec_digits.simps) auto
    then show ?thesis
      using 1(1) [OF False d(1)] d(2,3) by (auto simp: is_digit_digit_char)
  qed
qed

lemma digits_value_snoc:
  "digits_value radix (ds @ [c]) =
     digits_value radix ds * radix + (case digit_val radix c of Some d \<Rightarrow> d | None \<Rightarrow> 0)"
  by (simp add: digits_value_def)

lemma digits_value_dec_digits: "0 \<le> n \<Longrightarrow> digits_value 10 (dec_digits n) = n"
proof (induction n rule: dec_digits.induct)
  case (1 n)
  show ?case
  proof (cases "n < 10")
    case True
    with 1(2) show ?thesis
      by (subst dec_digits.simps) (simp add: digits_value_def digit_val_digit_char)
  next
    case False
    then have d: "0 \<le> n div 10" "0 \<le> n mod 10" "n mod 10 < 10" by simp_all
    have "digits_value 10 (dec_digits n) = digits_value 10 (dec_digits (n div 10)) * 10 + n mod 10"
      using False d by (subst dec_digits.simps) (simp add: digits_value_snoc digit_val_digit_char)
    with 1(1) [OF False d(1)] show ?thesis by simp
  qed
qed

lemma parseInt_dec_digits:
  assumes "0 \<le> n"
  shows "parseInt (dec_digits n) 10 = fl n"
proof -
  obtain c cs where ds: "dec_digits n = c # cs"
    using dec_digits_nonempty [of n] by (cases "dec_digits n") auto
  have all: "\<forall>x \<in> set (c # cs). is_digit 10 x"
    using dec_digits_are_digits [OF assms] ds by auto
  then have c: "is_digit 10 c" by simp
  have 1: "dropWhile is_ws (c # cs) = c # cs"
    using is_digit_10_plain(1) [OF c] by simp
  have 2: "strip_sign (c # cs) = (False, c # cs)"
    using is_digit_10_plain(2,3) [OF c] by (simp add: strip_sign_def)
  have 3: "strip_0x 10 (c # cs) = c # cs" by (simp add: strip_0x_def)
  have 4: "takeWhile (is_digit 10) (c # cs) = c # cs"
    using all by (simp only: takeWhile_eq_all_conv)
  have "parseInt (c # cs) 10 = fl (digits_value 10 (c # cs))"
    unfolding parseInt_def 1 2 by (simp add: 3 4 del: takeWhile.simps)
  then show ?thesis
    using digits_value_dec_digits [OF assms] by (simp add: ds)
qed

lemma parseInt_num_to_string:
  "0 \<le> n \<Longrightarrow> n < 2 ^ 53 \<Longrightarrow> parseInt (num_to_string n) 10 = Num n"
  by (simp add: num_to_string_def parseInt_dec_digits fl_small)

lemma num_to_string_no_dot: "0 \<le> n \<Longrightarrow> CHR ''.'' \<notin> set (num_to_string n)"
  using dec_digits_are_digits [of n "CHR ''.''"] is_digit_10_plain(4) [of "CHR ''.''"]
  by (auto simp: num_to_string_def)

lemma split_char_append:
  "c \<notin> set a \<Longrightarrow> split_char c (a @ c # rest) = a # split_char c rest"
  by (induction a) (auto split: list.splits)

lemma split_char_join4:
  assumes "c \<notin> set a" "c \<notin> set b" "c \<notin> set d" "c \<notin> set e"
  shows "split_char c (join [c] [a, b, d, e]) = [a, b, d, e]"
  using assms by (simp add: split_char_append split_char_no_sep)

lemma word_bytes:
  "(drop_bit 24 (W::32 word) AND 255) * 2^24 + (drop_bit 16 W AND 255) * 2^16 + (drop_bit 8 W AND 255) * 2^8 + (W AND 255) = W"
proof -
  define t0 where "t0 = take_bit 8 W"
  define t1 where "t1 = take_bit 8 (drop_bit 8 W)"
  define t2 where "t2 = take_bit 8 (drop_bit 16 W)"
  define d1 where "d1 = drop_bit 8 W"
  define d2 where "d2 = drop_bit 16 W"
  define d3 where "d3 = drop_bit 24 W"
  have m: "(255 :: 32 word) = mask 8" by (simp add: mask_eq_exp_minus_1)
  have a: "W AND 255 = t0" by (simp add: m take_bit_eq_mask t0_def)
  have b: "(drop_bit 8 W AND 255) = t1" by (simp add: m take_bit_eq_mask t1_def)
  have c: "(drop_bit 16 W AND 255) = t2" by (simp add: m take_bit_eq_mask t2_def)
  have d: "(drop_bit 24 W AND 255) = d3"
    unfolding d3_def by (rule bit_word_eqI) (auto simp: bit_simps m dest: bit_imp_le_length)
  have dd2: "drop_bit 8 d1 = d2" by (simp add: d1_def d2_def drop_bit_drop_bit)
  have dd3: "drop_bit 8 d2 = d3" by (simp add: d2_def d3_def drop_bit_drop_bit)
  have e1: "push_bit 8 d1 + t0 = W" unfolding d1_def t0_def by (rule bits_ident)
  have e2: "push_bit 8 d2 + t1 = d1" using bits_ident [of 8 d1] unfolding dd2 by (simp only: t1_def d1_def)
  have e3: "push_bit 8 d3 + t2 = d2" using bits_ident [of 8 d2] unfolding dd3 by (simp only: t2_def d2_def)
  have "d3 * 2^24 + t2 * 2^16 + t1 * 2^8 + t0 = push_bit 8 (push_bit 8 (push_bit 8 d3 + t2) + t1) + t0"
    by (simp add: push_bit_eq_mult algebra_simps)
  also have "\<dots> = W" by (simp only: e1 e2 e3)
  finally show ?thesis by (simp only: a b c d)
qed

subsection \<open>The bit operators on words\<close>

lemma all_ones: "(word_of_int 4294967295 :: 32 word) = - 1"
  by simp

lemma band_word: "(word_of_int (band x y) :: 32 word) = word_of_int x AND word_of_int y"
  by (simp add: band_def)

lemma bor_word: "(word_of_int (bor x y) :: 32 word) = word_of_int x OR word_of_int y"
  by (simp add: bor_def)

lemma shl_word: "(word_of_int (shl x k) :: 32 word) = push_bit (nat (k mod 32)) (word_of_int x)"
  by (simp add: shl_def)

lemma ushr_word: "(word_of_int (ushr x k) :: 32 word) = drop_bit (nat (k mod 32)) (word_of_int x)"
  by (simp add: ushr_def)

lemma shl_range: "- (2 ^ 31) \<le> shl x k" "shl x k < 2 ^ 31"
  using sint_ge [of "push_bit (nat (k mod 32)) (word_of_int x :: 32 word)"]
        sint_lt [of "push_bit (nat (k mod 32)) (word_of_int x :: 32 word)"]
  by (simp_all add: shl_def)

lemma ushr_range: "0 \<le> ushr x k" "ushr x k < 2 ^ 32"
  using uint_lt2p [of "drop_bit (nat (k mod 32)) (word_of_int x :: 32 word)"]
  by (simp_all add: ushr_def)

lemma band_ff: "band x 0xFF = uint ((word_of_int x :: 32 word) AND 255)"
proof -
  let ?w = "(word_of_int x :: 32 word) AND 255"
  have "?w \<le> 255" by (rule word_and_le1)
  then have u: "uint ?w \<le> 255" by (simp add: word_le_def)
  have "sint ?w = sint (word_of_int (uint ?w) :: 32 word)" by simp
  also have "\<dots> = (uint ?w + 2 ^ 31) mod 2 ^ 32 - 2 ^ 31"
    by (simp only: int_word_sint) simp
  also have "\<dots> = uint ?w" using u by simp
  finally show ?thesis by (simp add: band_def)
qed

lemma band_ff_range: "0 \<le> band x 0xFF" "band x 0xFF \<le> 255"
proof -
  let ?w = "(word_of_int x :: 32 word) AND 255"
  have "?w \<le> 255" by (rule word_and_le1)
  then have "uint ?w \<le> 255" by (simp add: word_le_def)
  then show "0 \<le> band x 0xFF" "band x 0xFF \<le> 255" by (simp_all add: band_ff)
qed

lemma intToIPv4_cong:
  "(word_of_int a :: 32 word) = word_of_int b \<Longrightarrow> intToIPv4 a = intToIPv4 b"
  by (simp add: intToIPv4_def band_def ushr_def)

lemma ipInt_of_octets:
  "(word_of_int (ipInt_of [band (ushr n 24) 0xFF, band (ushr n 16) 0xFF, band (ushr n 8) 0xFF, band n 0xFF]) :: 32 word)
     = word_of_int n"
proof -
  let ?W = "word_of_int n :: 32 word"
  have "(word_of_int (ipInt_of [band (ushr n 24) 0xFF, band (ushr n 16) 0xFF, band (ushr n 8) 0xFF, band n 0xFF]) :: 32 word)
      = push_bit 24 (drop_bit 24 ?W AND 255) + push_bit 16 (drop_bit 16 ?W AND 255)
        + push_bit 8 (drop_bit 8 ?W AND 255) + (?W AND 255)"
    by (simp add: ipInt_of_def shl_word band_word ushr_word)
  also have "\<dots> = (drop_bit 24 ?W AND 255) * 2^24 + (drop_bit 16 ?W AND 255) * 2^16
        + (drop_bit 8 ?W AND 255) * 2^8 + (?W AND 255)"
    by (simp only: push_bit_eq_mult)
  also have "\<dots> = ?W" by (rule word_bytes)
  finally show ?thesis .
qed

subsection \<open>Printing an address and reading it back\<close>

lemma networkInt_of_text_intToIPv4:
  "networkInt_of_text (intToIPv4 n) =
     Num (ipInt_of [band (ushr n 24) 0xFF, band (ushr n 16) 0xFF, band (ushr n 8) 0xFF, band n 0xFF])"
proof -
  define o0 where "o0 = band (ushr n 24) 0xFF"
  define o1 where "o1 = band (ushr n 16) 0xFF"
  define o2 where "o2 = band (ushr n 8) 0xFF"
  define o3 where "o3 = band n 0xFF"
  have r: "0 \<le> o0" "o0 \<le> 255" "0 \<le> o1" "o1 \<le> 255" "0 \<le> o2" "o2 \<le> 255" "0 \<le> o3" "o3 \<le> 255"
    unfolding o0_def o1_def o2_def o3_def by (rule band_ff_range)+
  have tx: "intToIPv4 n = join ''.'' [num_to_string o0, num_to_string o1, num_to_string o2, num_to_string o3]"
    by (simp add: intToIPv4_def o0_def o1_def o2_def o3_def)
  have sp: "split_char (CHR ''.'') (intToIPv4 n) = [num_to_string o0, num_to_string o1, num_to_string o2, num_to_string o3]"
    unfolding tx using r by (intro split_char_join4 num_to_string_no_dot)
  have p: "parseInt (num_to_string o0) 10 = Num o0" "parseInt (num_to_string o1) 10 = Num o1"
          "parseInt (num_to_string o2) 10 = Num o2" "parseInt (num_to_string o3) 10 = Num o3"
    using r by (simp_all add: parseInt_num_to_string)
  have b: "\<bar>shl o0 24 + shl o1 16\<bar> < 2 ^ 53" "\<bar>shl o0 24 + shl o1 16 + shl o2 8\<bar> < 2 ^ 53"
          "\<bar>shl o0 24 + shl o1 16 + shl o2 8 + o3\<bar> < 2 ^ 53"
    using shl_range [of o0 24] shl_range [of o1 16] shl_range [of o2 8] r by simp_all
  have "networkInt_of_text (intToIPv4 n) = Num (shl o0 24 + shl o1 16 + shl o2 8 + o3)"
    by (simp add: networkInt_of_text_def sp p at_def num_or_nan_def bits_of_def
          fl_small [OF b(1)] fl_small [OF b(2)] fl_small [OF b(3)])
  then show ?thesis
    by (simp add: ipInt_of_def o0_def o1_def o2_def o3_def)
qed

lemma address_of_text_intToIPv4:
  assumes "0 \<le> n" "n < 2 ^ 32"
  shows "address_of_text (intToIPv4 n) = n"
proof -
  have z: "\<And>x. ushr x 0 = uint (word_of_int x :: 32 word)" by (simp add: ushr_def)
  have "address_of_text (intToIPv4 n) = uint (word_of_int n :: 32 word)"
    by (simp only: address_of_text_def networkInt_of_text_intToIPv4 bits_of_def jsnum.case z ipInt_of_octets)
  also have "\<dots> = n" using assms by (simp add: uint_word_of_int)
  finally show ?thesis .
qed

lemma intToIPv4_no_slash: "CHR ''/'' \<notin> set (intToIPv4 n)"
proof -
  have d: "\<And>k. 0 \<le> k \<Longrightarrow> CHR ''/'' \<notin> set (num_to_string k)"
  proof -
    fix k :: int assume "0 \<le> k"
    then show "CHR ''/'' \<notin> set (num_to_string k)"
      using dec_digits_are_digits [of k "CHR ''/''"]
      by (auto simp: num_to_string_def is_digit_10_range)
  qed
  show ?thesis
    using d [OF band_ff_range(1) [of "ushr n 24"]] d [OF band_ff_range(1) [of "ushr n 16"]]
          d [OF band_ff_range(1) [of "ushr n 8"]] d [OF band_ff_range(1) [of n]]
    by (simp add: intToIPv4_def)
qed

lemma entry_address_entry:
  assumes "0 \<le> n" "n < 2 ^ 32"
  shows "entry_address (intToIPv4 n @ CHR ''/'' # sfx) = n"
proof -
  have "split_char (CHR ''/'') (intToIPv4 n @ CHR ''/'' # sfx) ! 0 = intToIPv4 n"
    using intToIPv4_no_slash [of n] by (simp add: split_char_append)
  then show ?thesis using assms by (simp add: entry_address_def address_of_text_intToIPv4)
qed

section \<open>IPv4 host range\<close>

lemma ushr0: "ushr x 0 = uint (word_of_int x :: 32 word)"
  by (simp add: ushr_def)

lemma networkInt_of_word:
  "networkInt_of i c = uint ((word_of_int i :: 32 word) AND push_bit (nat ((32 - c) mod 32)) (- 1))"
  by (simp only: networkInt_of_def subnetMask_of_def ushr0 band_word shl_word word_of_int_uint all_ones)

lemma broadcastInt_of_word:
  "broadcastInt_of i c =
     uint (((word_of_int i :: 32 word) AND push_bit (nat ((32 - c) mod 32)) (- 1)) OR drop_bit (nat (c mod 32)) (- 1))"
  by (simp only: broadcastInt_of_def networkInt_of_word ushr0 bor_word ushr_word word_of_int_uint all_ones)

lemma broadcast_minus_network:
  assumes "1 \<le> c" "c \<le> 31"
  shows "broadcastInt_of i c = networkInt_of i c + 2 ^ nat (32 - c) - 1"
proof -
  define h where "h = nat (32 - c)"
  define x where "x = (word_of_int i :: 32 word) AND NOT (mask h)"
  have m1: "(32 - c) mod 32 = 32 - c" using assms by (intro mod_pos_pos_trivial) simp_all
  have m2: "c mod 32 = c" using assms by (intro mod_pos_pos_trivial) simp_all
  have hm: "nat ((32 - c) mod 32) = h" "nat (c mod 32) = 32 - h" "h < 32"
    unfolding m1 m2 h_def using assms by linarith+
  have n: "networkInt_of i c = uint x"
    by (simp only: networkInt_of_word hm push_bit_minus_one_eq_not_mask x_def)
  have l: "LENGTH(32) - (32 - h) = h" using hm(3) by simp
  have b: "broadcastInt_of i c = uint (x OR mask h)"
    by (simp only: broadcastInt_of_word hm(1,2) push_bit_minus_one_eq_not_mask x_def drop_bit_of_minus_1_eq l)
  have d: "x AND mask h = 0" by (simp add: x_def and.assoc)
  have "uint x AND uint (mask h :: 32 word) = 0"
    using d by (simp flip: uint_and)
  then have "uint x + uint (mask h :: 32 word) = uint x OR uint (mask h :: 32 word)"
    by (rule disjunctive_add_eq_or)
  then have "uint (x OR mask h) = uint x + uint (mask h :: 32 word)"
    by (simp add: uint_or)
  moreover have "min LENGTH(32) h = h" using hm(3) by simp
  then have "uint (mask h :: 32 word) = (mask h :: int)" by (simp only: uint_mask_eq)
  then have "uint (mask h :: 32 word) = 2 ^ h - 1" by (simp only: mask_eq_exp_minus_1)
  ultimately show ?thesis by (simp add: n b h_def)
qed

lemma calculateIPv4Subnet_Some:
  assumes "calculateIPv4Subnet ip c = Some r"
  shows "\<exists>octets. 0 \<le> c \<and> c \<le> 32 \<and> r = ipv4_info octets c"
  using assms by (auto simp: calculateIPv4Subnet_def Let_def split: if_splits)

text \<open>
  C4. Let \<open>n\<close> and \<open>b\<close> be the network and broadcast addresses of a result of
  \<open>calculateIPv4Subnet\<close>, the numbers that its texts denote. When \<open>hostBits = 32 - cidr\<close>
  exceeds 1 the first host is the text of \<open>n + 1\<close> and the last host the text of
  \<open>b - 1\<close>; for \<open>cidr\<close> from 1 to 30 these are addresses with
  \<open>lastHost - firstHost = totalHosts - 3\<close>. When \<open>hostBits\<close> is at most 1 (\<open>/31\<close>,
  \<open>/32\<close>) the first and the last host are the network address.
\<close>

theorem C4_host_range:
  assumes "calculateIPv4Subnet ip c = Some r"
  shows "\<exists>n b. network r = intToIPv4 n \<and> broadcast r = Some (intToIPv4 b)
           \<and> address_of_text (network r) = n \<and> address_of_text (intToIPv4 b) = b
           \<and> (if 32 - c > 1
               then firstHost r = Some (intToIPv4 (n + 1)) \<and> lastHost r = Some (intToIPv4 (b - 1))
               else firstHost r = Some (network r) \<and> lastHost r = Some (network r))
           \<and> (1 \<le> c \<and> c \<le> 30 \<longrightarrow>
                 (b - 1) - (n + 1) = totalHosts r - 3
                 \<and> address_of_text (intToIPv4 (n + 1)) = n + 1
                 \<and> address_of_text (intToIPv4 (b - 1)) = b - 1)"
proof -
  from calculateIPv4Subnet_Some [OF assms] obtain octets
    where c: "0 \<le> c" "c \<le> 32" and r: "r = ipv4_info octets c" by blast
  define n where "n = networkInt_of (ipInt_of octets) c"
  define b where "b = broadcastInt_of (ipInt_of octets) c"
  have nr: "0 \<le> n" "n < 2 ^ 32" unfolding n_def networkInt_of_def by (rule ushr_range)+
  have br: "0 \<le> b" "b < 2 ^ 32" unfolding b_def broadcastInt_of_def by (rule ushr_range)+
  have f: "network r = intToIPv4 n" "broadcast r = Some (intToIPv4 b)"
     "firstHost r = Some (if 32 - c > 1 then intToIPv4 (n + 1) else network r)"
     "lastHost r = Some (if 32 - c > 1 then intToIPv4 (b - 1) else network r)"
     "totalHosts r = 2 ^ nat (32 - c)"
    by (simp_all add: r ipv4_info_def Let_def n_def b_def pow2_def)
  have a: "address_of_text (network r) = n" "address_of_text (intToIPv4 b) = b"
    using nr br by (simp_all add: f(1) address_of_text_intToIPv4)
  have mid: "1 \<le> c \<and> c \<le> 30 \<longrightarrow>
                 (b - 1) - (n + 1) = totalHosts r - 3
                 \<and> address_of_text (intToIPv4 (n + 1)) = n + 1
                 \<and> address_of_text (intToIPv4 (b - 1)) = b - 1"
  proof
    assume cc: "1 \<le> c \<and> c \<le> 30"
    then have bn: "b = n + 2 ^ nat (32 - c) - 1"
      unfolding b_def n_def by (intro broadcast_minus_network) simp_all
    have "2 \<le> nat (32 - c)" using cc by linarith
    then have "(2::int) ^ 2 \<le> 2 ^ nat (32 - c)" by (intro power_increasing) simp_all
    then have big: "(4::int) \<le> 2 ^ nat (32 - c)" by simp
    have 1: "(b - 1) - (n + 1) = totalHosts r - 3" by (simp add: bn f(5))
    have 2: "address_of_text (intToIPv4 (n + 1)) = n + 1"
      using nr br bn big by (intro address_of_text_intToIPv4) simp_all
    have 3: "address_of_text (intToIPv4 (b - 1)) = b - 1"
      using nr br bn big by (intro address_of_text_intToIPv4) simp_all
    from 1 2 3 show "(b - 1) - (n + 1) = totalHosts r - 3
                 \<and> address_of_text (intToIPv4 (n + 1)) = n + 1
                 \<and> address_of_text (intToIPv4 (b - 1)) = b - 1" by blast
  qed
  have hosts: "if 32 - c > 1
               then firstHost r = Some (intToIPv4 (n + 1)) \<and> lastHost r = Some (intToIPv4 (b - 1))
               else firstHost r = Some (network r) \<and> lastHost r = Some (network r)"
    by (simp add: f(3,4))
  from f(1,2) a hosts mid show ?thesis by blast
qed

lemma calc4_192_168_1_0_24:
  "calculateIPv4Subnet ''192.168.1.0'' 24 =
     Some \<lparr> network = ''192.168.1.0'', broadcast = Some ''192.168.1.255'',
            firstHost = Some ''192.168.1.1'', lastHost = Some ''192.168.1.254'',
            subnetMask = Some ''255.255.255.0'', wildcardMask = Some ''0.0.0.255'',
            totalHosts = 256, usableHosts = 254, cidr = 24, ipVersion = IPv4,
            networkClass = Some ''C'', isPrivate = Some True, prefix = None \<rparr>"
  by code_simp

lemma calc4_192_168_1_100_32:
  "calculateIPv4Subnet ''192.168.1.100'' 32 =
     Some \<lparr> network = ''192.168.1.100'', broadcast = Some ''255.255.255.255'',
            firstHost = Some ''192.168.1.100'', lastHost = Some ''192.168.1.100'',
            subnetMask = Some ''255.255.255.255'', wildcardMask = Some ''0.0.0.0'',
            totalHosts = 1, usableHosts = 0, cidr = 32, ipVersion = IPv4,
            networkClass = Some ''C'', isPrivate = Some True, prefix = None \<rparr>"
  by code_simp

theorem C4_host_range_witness:
  "(\<exists>r n b. calculateIPv4Subnet ''192.168.1.0'' 24 = Some r
       \<and> network r = intToIPv4 n \<and> broadcast r = Some (intToIPv4 b)
       \<and> address_of_text (network r) = n \<and> address_of_text (intToIPv4 b) = b
       \<and> firstHost r = Some (intToIPv4 (n + 1)) \<and> lastHost r = Some (intToIPv4 (b - 1))
       \<and> (b - 1) - (n + 1) = totalHosts r - 3
       \<and> address_of_text (intToIPv4 (n + 1)) = n + 1
       \<and> address_of_text (intToIPv4 (b - 1)) = b - 1)
   \<and> (\<exists>r. calculateIPv4Subnet ''192.168.1.100'' 32 = Some r
       \<and> network r = ''192.168.1.100''
       \<and> firstHost r = Some (network r) \<and> lastHost r = Some (network r))"
proof -
  have 1: "\<exists>r n b. calculateIPv4Subnet ''192.168.1.0'' 24 = Some r
       \<and> network r = intToIPv4 n \<and> broadcast r = Some (intToIPv4 b)
       \<and> address_of_text (network r) = n \<and> address_of_text (intToIPv4 b) = b
       \<and> firstHost r = Some (intToIPv4 (n + 1)) \<and> lastHost r = Some (intToIPv4 (b - 1))
       \<and> (b - 1) - (n + 1) = totalHosts r - 3
       \<and> address_of_text (intToIPv4 (n + 1)) = n + 1
       \<and> address_of_text (intToIPv4 (b - 1)) = b - 1"
    using C4_host_range [OF calc4_192_168_1_0_24] calc4_192_168_1_0_24 by simp
  have 2: "\<exists>r. calculateIPv4Subnet ''192.168.1.100'' 32 = Some r
       \<and> network r = ''192.168.1.100''
       \<and> firstHost r = Some (network r) \<and> lastHost r = Some (network r)"
    using C4_host_range [OF calc4_192_168_1_100_32] calc4_192_168_1_100_32 by simp
  from 1 2 show ?thesis by blast
qed

section \<open>IPv4 subnet lists\<close>

lemma aligned_room:
  fixes N :: int
  assumes "0 \<le> N" "N < 2 ^ (m + k)" "N mod 2 ^ m = 0"
  shows "N + 2 ^ m \<le> 2 ^ (m + k)"
proof -
  from assms(3) obtain q where q: "N = 2 ^ m * q" by (auto simp: mod_eq_0_iff_dvd)
  have "2 ^ m * q < 2 ^ m * 2 ^ k" using assms(2) q by (simp add: power_add)
  then have "q < 2 ^ k" by simp
  then have "q + 1 \<le> 2 ^ k" by simp
  then have "2 ^ m * (q + 1) \<le> (2::int) ^ m * 2 ^ k" by (intro mult_left_mono) simp_all
  then show ?thesis by (simp add: q power_add algebra_simps)
qed

lemma child_in_range:
  fixes N :: int
  assumes "0 \<le> N" "N < 2 ^ 32" "0 \<le> c0" "c0 < c1" "c1 \<le> 32"
      "N mod 2 ^ nat (32 - c0) = 0" "i < nat (min (2 ^ nat (c1 - c0)) 256)"
  shows "0 \<le> N + int i * 2 ^ nat (32 - c1)" "N + int i * 2 ^ nat (32 - c1) < 2 ^ 32"
proof -
  define a where "a = nat (32 - c1)"
  define b where "b = nat (c1 - c0)"
  have ab: "nat (32 - c0) = a + b" "32 = (a + b) + nat c0"
    using assms(3-5) by (simp_all add: a_def b_def)
  have "N < 2 ^ ((a + b) + nat c0)" using assms(2) ab(2) by simp
  then have room: "N + 2 ^ (a + b) \<le> 2 ^ ((a + b) + nat c0)"
    using assms(1,6) unfolding ab(1) by (intro aligned_room) simp_all
  have "int i < min (2 ^ nat (c1 - c0)) 256" using assms(7) by linarith
  then have "int i < 2 ^ b" by (simp add: b_def)
  then have "int i + 1 \<le> 2 ^ b" by linarith
  then have "(int i + 1) * 2 ^ a \<le> (2::int) ^ b * 2 ^ a" by (intro mult_right_mono) simp_all
  then have "int i * 2 ^ a + 2 ^ a \<le> (2::int) ^ (a + b)" by (simp add: power_add algebra_simps)
  moreover have "(0::int) < 2 ^ a" by simp
  ultimately have "int i * 2 ^ a < (2::int) ^ (a + b)" by linarith
  with room have "N + int i * 2 ^ a < 2 ^ ((a + b) + nat c0)" by linarith
  then show "N + int i * 2 ^ nat (32 - c1) < 2 ^ 32" using ab(2) by (simp add: a_def)
  show "0 \<le> N + int i * 2 ^ nat (32 - c1)" using assms(1) by simp
qed

lemma ipv4_list_entry:
  assumes "network si = intToIPv4 N" "0 \<le> c1" "c1 \<le> 32" "i < 256"
  shows "intToIPv4 (bits_of (js_add (networkInt_of_text (network si)) (Num (int i * pow2 (32 - c1)))))
           = intToIPv4 (N + int i * 2 ^ nat (32 - c1))"
proof -
  define X where "X = ipInt_of [band (ushr N 24) 0xFF, band (ushr N 16) 0xFF, band (ushr N 8) 0xFF, band N 0xFF]"
  have net: "networkInt_of_text (network si) = Num X"
    by (simp add: assms(1) networkInt_of_text_intToIPv4 X_def)
  have w: "(word_of_int X :: 32 word) = word_of_int N" unfolding X_def by (rule ipInt_of_octets)
  have xb: "\<bar>X\<bar> < 2 ^ 34"
    using shl_range [of "band (ushr N 24) 0xFF" 24] shl_range [of "band (ushr N 16) 0xFF" 16]
          shl_range [of "band (ushr N 8) 0xFF" 8] band_ff_range [of N]
    by (simp add: X_def ipInt_of_def)
  define p where "p = int i * 2 ^ nat (32 - c1)"
  have "(2::int) ^ nat (32 - c1) \<le> 2 ^ 32" using assms(2) by (intro power_increasing) simp_all
  moreover have "int i < 256" using assms(4) by simp
  ultimately have "int i * 2 ^ nat (32 - c1) \<le> 256 * 2 ^ 32"
    by (intro mult_mono) simp_all
  then have p1: "p \<le> 1099511627776" by (simp add: p_def)
  have p0: "0 \<le> p" by (simp add: p_def)
  have "\<bar>X + p\<bar> < 2 ^ 53" using xb p0 p1 by simp
  then have sb: "\<bar>X + int i * 2 ^ nat (32 - c1)\<bar> < 2 ^ 53" by (simp add: p_def)
  have "bits_of (js_add (networkInt_of_text (network si)) (Num (int i * pow2 (32 - c1))))
          = X + int i * 2 ^ nat (32 - c1)"
    by (simp add: net pow2_def fl_small [OF sb] bits_of_def)
  moreover have "(word_of_int (X + int i * 2 ^ nat (32 - c1)) :: 32 word) = word_of_int (N + int i * 2 ^ nat (32 - c1))"
    using w by (simp add: wi_hom_syms)
  ultimately show ?thesis by (simp add: intToIPv4_cong)
qed

text \<open>
  C3. Take an IPv4 prefix: the text of an address \<open>N\<close> whose bits beyond the prefix
  length \<open>cidr\<close> are zero. For every \<open>newCidr\<close> with \<open>cidr < newCidr \<le> 32\<close> the list has
  \<open>min(2^(newCidr - cidr), 256)\<close> entries, the \<open>i\<close>-th being the text of
  \<open>N + i * 2^(32 - newCidr)\<close> followed by \<open>/newCidr\<close>. Read back, the entries are these
  addresses (none wraps around) in strictly increasing order, and the total reported next
  to the list is \<open>2^(newCidr - cidr)\<close>.
\<close>

theorem C3_ipv4_children:
  assumes "ipVersion si = IPv4" "network si = intToIPv4 N" "0 \<le> N" "N < 2 ^ 32"
      "N mod 2 ^ nat (32 - cidr si) = 0" "0 \<le> cidr si" "cidr si < newCidr" "newCidr \<le> 32"
  shows "generateSubnetList si newCidr
           = map (\<lambda>i. intToIPv4 (N + int i * 2 ^ nat (32 - newCidr)) @ ''/'' @ num_to_string newCidr)
                 [0..<nat (min (2 ^ nat (newCidr - cidr si)) 256)]
         \<and> length (generateSubnetList si newCidr) = nat (min (2 ^ nat (newCidr - cidr si)) 256)
         \<and> map entry_address (generateSubnetList si newCidr)
             = map (\<lambda>i. N + int i * 2 ^ nat (32 - newCidr)) [0..<nat (min (2 ^ nat (newCidr - cidr si)) 256)]
         \<and> sorted_wrt (<) (map entry_address (generateSubnetList si newCidr))
         \<and> totalSubnets si newCidr = 2 ^ nat (newCidr - cidr si)
         \<and> displayCount si newCidr = int (length (generateSubnetList si newCidr))"
proof -
  define cnt where "cnt = nat (min (2 ^ nat (newCidr - cidr si)) 256)"
  define addr where "addr = (\<lambda>i. N + int i * 2 ^ nat (32 - newCidr))"
  have c1: "0 \<le> newCidr" using assms(6,7) by simp
  have small: "\<And>i. i < cnt \<Longrightarrow> i < 256" by (simp add: cnt_def)
  have lst: "generateSubnetList si newCidr
           = map (\<lambda>i. intToIPv4 (addr i) @ ''/'' @ num_to_string newCidr) [0..<cnt]"
    using assms(1,7) ipv4_list_entry [OF assms(2) c1 assms(8)] small
    by (simp add: generateSubnetList_def Let_def pow2_def cnt_def addr_def)
  have rng: "\<And>i. i < cnt \<Longrightarrow> 0 \<le> addr i \<and> addr i < 2 ^ 32"
    using child_in_range [OF assms(3,4,6,7,8,5)] by (simp add: cnt_def addr_def)
  have ea: "map entry_address (generateSubnetList si newCidr) = map addr [0..<cnt]"
    unfolding lst using rng by (simp add: entry_address_entry)
  have inc: "\<And>i j. i < j \<Longrightarrow> addr i < addr j" by (simp add: addr_def)
  have srt: "sorted_wrt (<) (map addr [0..<cnt])"
    by (simp add: sorted_wrt_iff_nth_less inc)
  have tot: "totalSubnets si newCidr = 2 ^ nat (newCidr - cidr si)"
    by (simp add: totalSubnets_def pow2_def)
  have dc: "displayCount si newCidr = int cnt"
    by (simp add: displayCount_def tot cnt_def)
  have len: "length (generateSubnetList si newCidr) = cnt" by (simp add: lst)
  have srt': "sorted_wrt (<) (map entry_address (generateSubnetList si newCidr))"
    by (simp only: ea srt)
  have dc': "displayCount si newCidr = int (length (generateSubnetList si newCidr))"
    by (simp only: dc len)
  show ?thesis
    using lst len ea srt' tot dc' unfolding cnt_def addr_def by blast
qed

theorem C3_ipv4_children_witness:
  "map_option (\<lambda>s. (generateSubnetList s 26, totalSubnets s 26, map entry_address (generateSubnetList s 26)))
      (calculateSubnet ''192.168.1.0/24'')
     = Some ([''192.168.1.0/26'', ''192.168.1.64/26'', ''192.168.1.128/26'', ''192.168.1.192/26''], 4,
             [3232235776, 3232235840, 3232235904, 3232235968])"
proof -
  let ?si = "\<lparr> network = ''192.168.1.0'', broadcast = Some ''192.168.1.255'',
            firstHost = Some ''192.168.1.1'', lastHost = Some ''192.168.1.254'',
            subnetMask = Some ''255.255.255.0'', wildcardMask = Some ''0.0.0.255'',
            totalHosts = 256, usableHosts = 254, cidr = 24, ipVersion = IPv4,
            networkClass = Some ''C'', isPrivate = Some True, prefix = None \<rparr>"
  have n: "intToIPv4 3232235776 = ''192.168.1.0''" "intToIPv4 3232235840 = ''192.168.1.64''"
     "intToIPv4 3232235904 = ''192.168.1.128''" "intToIPv4 3232235968 = ''192.168.1.192''"
     "num_to_string 26 = ''26''"
    by code_simp+
  have h: "network ?si = intToIPv4 3232235776" by (simp add: n)
  have u: "[0..<4] = [0, 1, 2, 3]" by code_simp
  have e: "entry_address ''192.168.1.0/26'' = 3232235776" "entry_address ''192.168.1.64/26'' = 3232235840"
     "entry_address ''192.168.1.128/26'' = 3232235904" "entry_address ''192.168.1.192/26'' = 3232235968"
    by code_simp+
  from C3_ipv4_children [of ?si 3232235776 26, OF _ h]
  have "generateSubnetList ?si 26 = [''192.168.1.0/26'', ''192.168.1.64/26'', ''192.168.1.128/26'', ''192.168.1.192/26'']
        \<and> totalSubnets ?si 26 = 4
        \<and> map entry_address (generateSubnetList ?si 26) = [3232235776, 3232235840, 3232235904, 3232235968]"
    by (simp add: n u e)
  then show ?thesis unfolding calc_192_168_1_0_24
    by (simp add: e)
qed

section \<open>Prefix length 0 in IPv4\<close>

text \<open>
  For a prefix length from 1 to 32 the network address has its host bits cleared. At
  prefix length 0 the shift count 32 is taken modulo 32: the mask is all ones and the
  network is the address itself.
\<close>

lemma network_at_prefix_0: "networkInt_of i 0 = uint (word_of_int i :: 32 word)"
  by (simp add: networkInt_of_word)

lemma network_clears_host_bits:
  assumes "1 \<le> c" "c \<le> 32"
  shows "(word_of_int (networkInt_of i c) :: 32 word) AND mask (nat (32 - c)) = 0"
proof (cases "c = 32")
  case True
  then show ?thesis by simp
next
  case False
  with assms have m: "(32 - c) mod 32 = 32 - c" by (intro mod_pos_pos_trivial) simp_all
  show ?thesis
    by (simp only: networkInt_of_word m word_of_int_uint push_bit_minus_one_eq_not_mask)
       (simp add: and.assoc)
qed

text \<open>
  C1. The network address of a calculation should have every bit beyond the prefix length
  cleared, so a \<open>/0\<close> should give the network \<open>0.0.0.0\<close>. The calculator computes the
  mask as \<open>0xFFFFFFFF << 32\<close> there, which JavaScript evaluates as a shift by 0: the mask
  is all ones and the input address comes back unchanged as the network. The input
  \<open>192.168.1.1/0\<close> gives the network \<open>192.168.1.1\<close> and the mask \<open>255.255.255.255\<close>.
\<close>

theorem C1_prefix_zero_keeps_host_bits:
  "map_option network (calculateSubnet ''192.168.1.1/0'') = Some ''192.168.1.1''
   \<and> map_option subnetMask (calculateSubnet ''192.168.1.1/0'') = Some (Some ''255.255.255.255'')
   \<and> map_option broadcast (calculateSubnet ''192.168.1.1/0'') = Some (Some ''255.255.255.255'')"
  by code_simp

text \<open>
  The containment check compares the candidate and the network under the same mask, so
  it is the masked comparison for a prefix length from 1 to 32 and a comparison of whole
  addresses at prefix length 0.
\<close>

lemma isIPv4InSubnet_masks:
  assumes "length (split_char (CHR ''.'') ip) = 4"
      "None \<notin> set (map parse_octet (split_char (CHR ''.'') ip))"
      "network si = intToIPv4 N"
  shows "isIPv4InSubnet ip si =
           \<lparr> result = ((word_of_int (ipInt_of (map the (map parse_octet (split_char (CHR ''.'') ip)))) :: 32 word)
                          AND push_bit (nat ((32 - cidr si) mod 32)) (- 1)
                        = word_of_int N AND push_bit (nat ((32 - cidr si) mod 32)) (- 1)),
             error = None \<rparr>"
proof -
  let ?A = "ipInt_of (map the (map parse_octet (split_char (CHR ''.'') ip)))"
  let ?M = "push_bit (nat ((32 - cidr si) mod 32)) (- 1) :: 32 word"
  let ?X = "ipInt_of [band (ushr N 24) 0xFF, band (ushr N 16) 0xFF, band (ushr N 8) 0xFF, band N 0xFF]"
  have net: "bits_of (networkInt_of_text (network si)) = ?X"
    by (simp add: assms(3) networkInt_of_text_intToIPv4 bits_of_def)
  have a: "ushr (band ?A (ushr (shl 0xFFFFFFFF (32 - cidr si)) 0)) 0 = uint ((word_of_int ?A :: 32 word) AND ?M)"
    by (simp only: ushr0 band_word shl_word word_of_int_uint all_ones)
  have b: "ushr (band ?X (ushr (shl 0xFFFFFFFF (32 - cidr si)) 0)) 0 = uint ((word_of_int N :: 32 word) AND ?M)"
    by (simp only: ushr0 band_word shl_word word_of_int_uint all_ones ipInt_of_octets)
  from assms(1,2) show ?thesis
    by (simp add: isIPv4InSubnet_def Let_def net a b del: map_map flip: word_uint_eq_iff)
qed

text \<open>
  C2. Every address lies in a \<open>/0\<close> network, so the containment check of \<open>10.1.2.3\<close>
  against \<open>0.0.0.0/0\<close> should say yes. With the same all-ones mask as above the check
  compares the whole addresses and says no.
\<close>

theorem C2_prefix_zero_contains_nothing_else:
  "map_option (isIPInSubnet ''10.1.2.3'') (calculateSubnet ''0.0.0.0/0'')
     = Some \<lparr> result = False, error = None \<rparr>"
  by code_simp

section \<open>IPv4 text\<close>

text \<open>
  C5. An octet followed by other characters should be rejected. The calculator reads
  each octet with \<open>parseInt\<close>, which stops at the first character that is not a digit
  and returns what it has read so far; the check for \<open>NaN\<close> and for the range 0..255
  then passes. The input \<open>192.168.1.7abc/24\<close> is calculated as \<open>192.168.1.7/24\<close>, with
  the same result.
\<close>

theorem C5_trailing_garbage_accepted:
  "calculateSubnet ''192.168.1.7abc/24'' = calculateSubnet ''192.168.1.7/24''
   \<and> map_option network (calculateSubnet ''192.168.1.7abc/24'') = Some ''192.168.1.0''
   \<and> map_option broadcast (calculateSubnet ''192.168.1.7abc/24'') = Some (Some ''192.168.1.255'')"
  by code_simp

section \<open>Expanding IPv6 text\<close>










section \<open>IPv6 address counts\<close>

lemma join_nonempty: "sep \<noteq> [] \<Longrightarrow> 2 \<le> length xs \<Longrightarrow> join sep xs \<noteq> []"
  by (cases xs; cases "tl xs") auto

lemma expandIPv6_groups:
  assumes "expandIPv6 ip = Some e"
  shows "\<exists>gs. length gs = 8 \<and> e = join '':'' (map (padStart0 4) gs)"
proof (cases "includes_str ip ''::''")
  case True
  let ?parts = "split_dcolon ip"
  let ?l = "if truthy (at ?parts 0) then split_char (CHR '':'') (?parts ! 0) else []"
  let ?r = "if truthy (at ?parts 1) then split_char (CHR '':'') (?parts ! 1) else []"
  let ?m = "8 - int (length ?l) - int (length ?r)"
  from assms True have m: "0 \<le> ?m" and e: "e = join '':'' (map (padStart0 4) (?l @ replicate (nat ?m) ''0000'' @ ?r))"
    by (auto simp: expandIPv6_def Let_def split: if_splits)
  from m have "length (?l @ replicate (nat ?m) ''0000'' @ ?r) = 8" by simp
  with e show ?thesis by blast
next
  case False
  with assms show ?thesis
    by (auto simp: expandIPv6_def Let_def split: if_splits)
qed

lemma expandIPv6_nonempty: "expandIPv6 ip = Some e \<Longrightarrow> e \<noteq> []"
  using expandIPv6_groups [of ip e] join_nonempty [of "'':''"] by auto

lemma js_sub_small: "\<bar>a - b\<bar> < 2 ^ 53 \<Longrightarrow> js_sub a b = a - b"
  by (simp add: js_sub_def fl_def)

lemma calculateIPv6Subnet_counts:
  assumes "0 \<le> c" "c \<le> 128" "expandIPv6 ip = Some e"
  shows "\<exists>r. calculateIPv6Subnet ip c = Some r
           \<and> totalHosts r = (if 128 - c \<ge> 64 then MAX_SAFE_INTEGER else pow2 (128 - c))
           \<and> usableHosts r = max 0 (js_sub (totalHosts r) 2)"
  using assms expandIPv6_nonempty [OF assms(3)]
  by (simp add: calculateIPv6Subnet_def truthy_def Let_def)

text \<open>
  C10. For every IPv6 input that the calculator accepts and every prefix length from 0
  to 64, the total is the sentinel \<open>Number.MAX_SAFE_INTEGER\<close> and the usable host count
  is that number minus 2, \<open>9007199254740989\<close>: the subtraction is applied to the
  sentinel like to any other count.
\<close>

theorem C10_usable_is_sentinel_minus_two:
  assumes "0 \<le> c" "c \<le> 64" "expandIPv6 ip = Some e"
  shows "\<exists>r. calculateIPv6Subnet ip c = Some r
           \<and> totalHosts r = MAX_SAFE_INTEGER
           \<and> usableHosts r = MAX_SAFE_INTEGER - 2
           \<and> usableHosts r = 9007199254740989"
proof -
  from assms obtain r where r: "calculateIPv6Subnet ip c = Some r"
      "totalHosts r = (if 128 - c \<ge> 64 then MAX_SAFE_INTEGER else pow2 (128 - c))"
      "usableHosts r = max 0 (js_sub (totalHosts r) 2)"
    using calculateIPv6Subnet_counts [of c ip e] by auto
  from r(2) assms(2) have t: "totalHosts r = MAX_SAFE_INTEGER" by simp
  have "js_sub MAX_SAFE_INTEGER 2 = MAX_SAFE_INTEGER - 2"
    by (rule js_sub_small) (simp add: MAX_SAFE_INTEGER_def)
  with r(3) t have "usableHosts r = MAX_SAFE_INTEGER - 2" by (simp add: MAX_SAFE_INTEGER_def)
  with r(1) t show ?thesis by (simp add: MAX_SAFE_INTEGER_def)
qed

lemma expand_2001_db8: "expandIPv6 ''2001:db8::'' = Some ''2001:0db8:0000:0000:0000:0000:0000:0000''"
  by code_simp

theorem C10_usable_is_sentinel_minus_two_witness:
  "\<exists>r. calculateIPv6Subnet ''2001:db8::'' 64 = Some r
           \<and> totalHosts r = MAX_SAFE_INTEGER
           \<and> usableHosts r = MAX_SAFE_INTEGER - 2
           \<and> usableHosts r = 9007199254740989"
  using C10_usable_is_sentinel_minus_two [of 64 "''2001:db8::''", OF _ _ expand_2001_db8] by simp

lemma pow2_not_sentinel: "0 \<le> k \<Longrightarrow> pow2 k \<noteq> MAX_SAFE_INTEGER"
proof
  assume k: "0 \<le> k" and eq: "pow2 k = MAX_SAFE_INTEGER"
  have odd: "odd MAX_SAFE_INTEGER" by (simp add: MAX_SAFE_INTEGER_def)
  with eq have "odd ((2::int) ^ nat k)" by (simp add: pow2_def)
  then have "nat k = 0" by (cases "nat k") auto
  with eq show False by (simp add: pow2_def MAX_SAFE_INTEGER_def)
qed

text \<open>
  C7 (as amended). For every IPv6 input that the calculator accepts, the total address
  count is the number \<open>Number.MAX_SAFE_INTEGER = 9007199254740991\<close> when
  \<open>hostBits = 128 - cidr\<close> is at least 64 and exactly \<open>2^hostBits\<close> otherwise. The
  sentinel is a plain number of the same kind as the counts; it can be told apart only
  because no exact count equals it.
\<close>

theorem C7_total_is_plain_number:
  assumes "0 \<le> c" "c \<le> 128" "expandIPv6 ip = Some e"
  shows "\<exists>r. calculateIPv6Subnet ip c = Some r
           \<and> totalHosts r = (if 128 - c \<ge> 64 then 9007199254740991 else 2 ^ nat (128 - c))
           \<and> (totalHosts r = MAX_SAFE_INTEGER) = (128 - c \<ge> 64)"
proof -
  from assms obtain r where r: "calculateIPv6Subnet ip c = Some r"
      "totalHosts r = (if 128 - c \<ge> 64 then MAX_SAFE_INTEGER else pow2 (128 - c))"
    using calculateIPv6Subnet_counts [of c ip e] by auto
  have "pow2 (128 - c) \<noteq> MAX_SAFE_INTEGER" using assms(2) by (intro pow2_not_sentinel) simp
  with r show ?thesis by (auto simp: MAX_SAFE_INTEGER_def pow2_def)
qed

theorem C7_total_is_plain_number_witness:
  "(\<exists>r. calculateIPv6Subnet ''2001:db8::'' 64 = Some r
           \<and> totalHosts r = 9007199254740991
           \<and> totalHosts r = MAX_SAFE_INTEGER)
   \<and> (\<exists>r. calculateIPv6Subnet ''2001:db8::'' 70 = Some r
           \<and> totalHosts r = 2 ^ 58
           \<and> totalHosts r \<noteq> MAX_SAFE_INTEGER)"
  using C7_total_is_plain_number [of 64 "''2001:db8::''", OF _ _ expand_2001_db8]
        C7_total_is_plain_number [of 70 "''2001:db8::''", OF _ _ expand_2001_db8]
  by simp

text \<open>
  C7 as stated fails in its last part: for \<open>2001:db8::/64\<close> the total is the integer
  \<open>9007199254740991\<close>, and the usable host count is computed from it by ordinary
  subtraction, as from a count.
\<close>

theorem C7_sentinel_is_used_as_a_count:
  "map_option totalHosts (calculateSubnet ''2001:db8::/64'') = Some 9007199254740991
   \<and> map_option usableHosts (calculateSubnet ''2001:db8::/64'') = Some (9007199254740991 - 2)"
  unfolding calc_2001_db8_64 by simp

section \<open>IPv6 subnet lists\<close>

text \<open>
  C8. The children of an IPv6 network should be pairwise distinct. When the new prefix
  length is a multiple of 16 the increment is \<open>i << 16\<close>, which the following
  \<open>& 0xFFFF\<close> removes again: splitting \<open>2001:db8::/63\<close> into \<open>/64\<close> lists the same
  network twice. The first equation is the calculation of \<open>2001:db8::/63\<close>, the second
  the list made from its result.
\<close>

theorem C8_children_repeat_at_group_boundary:
  "calculateSubnet ''2001:db8::/63'' =
     Some \<lparr> network = ''2001:0db8:0000:0000:0000:0000:0000:0000'', broadcast = None,
            firstHost = Some ''2001:0db8:0000:0000:0000:0000:0000:0000'',
            lastHost = Some ''2001:0db8:0000:0000:0000:0000:0000:0000'',
            subnetMask = None, wildcardMask = None,
            totalHosts = 9007199254740991, usableHosts = 9007199254740989,
            cidr = 63, ipVersion = IPv6, networkClass = None, isPrivate = Some False,
            prefix = Some ''2001:0db8:0000:0000:0000:0000:0000:0000/63'' \<rparr>
   \<and> generateSubnetList
         \<lparr> network = ''2001:0db8:0000:0000:0000:0000:0000:0000'', broadcast = None,
           firstHost = Some ''2001:0db8:0000:0000:0000:0000:0000:0000'',
           lastHost = Some ''2001:0db8:0000:0000:0000:0000:0000:0000'',
           subnetMask = None, wildcardMask = None,
           totalHosts = 9007199254740991, usableHosts = 9007199254740989,
           cidr = 63, ipVersion = IPv6, networkClass = None, isPrivate = Some False,
           prefix = Some ''2001:0db8:0000:0000:0000:0000:0000:0000/63'' \<rparr> 64
       = [''2001:0db8:0000:0000:0000:0000:0000:0000/64'',
          ''2001:0db8:0000:0000:0000:0000:0000:0000/64'']"
  by code_simp

section \<open>Containment across versions\<close>

lemma isIPv6InSubnet_no_colon:
  "CHR '':'' \<notin> set s \<Longrightarrow>
     isIPv6InSubnet s si = \<lparr> result = False, error = Some ''Invalid IPv6 address format'' \<rparr>"
  by (simp add: isIPv6InSubnet_def expandIPv6_no_colon truthy_def)

lemma isIPv4InSubnet_no_dot:
  "CHR ''.'' \<notin> set s \<Longrightarrow>
     isIPv4InSubnet s si = \<lparr> result = False, error = Some ''Invalid IPv4 address format'' \<rparr>"
  by (simp add: isIPv4InSubnet_def split_char_no_sep)

text \<open>
  C9 (as amended). There is no version-mismatch error. A candidate without a colon (an
  IPv4 text) checked against an IPv6 network is answered with the error
  \<open>Invalid IPv6 address format\<close>, and a candidate in colon notation without a dot
  checked against an IPv4 network with \<open>Invalid IPv4 address format\<close>: the errors that
  a malformed address of the network's own version gets.
\<close>

theorem C9_mismatch_reports_format_error:
  "(ipVersion si = IPv6 \<and> \<not> includes_str ip '':'' \<longrightarrow>
      isIPInSubnet ip si = \<lparr> result = False, error = Some ''Invalid IPv6 address format'' \<rparr>)
   \<and> (ipVersion si = IPv4 \<and> includes_str ip '':'' \<and> \<not> includes_str ip ''.'' \<longrightarrow>
      isIPInSubnet ip si = \<lparr> result = False, error = Some ''Invalid IPv4 address format'' \<rparr>)"
proof (intro conjI impI)
  let ?clean = "if includes_str ip ''/'' then split_char (CHR ''/'') ip ! 0 else ip"
  have sub: "set ?clean \<subseteq> set ip" by (rule cleanIP_chars)
  {
    assume a: "ipVersion si = IPv6 \<and> \<not> includes_str ip '':''"
    then have "CHR '':'' \<notin> set ?clean" using sub by (auto simp: includes_single)
    then have "isIPv6InSubnet ?clean si = \<lparr> result = False, error = Some ''Invalid IPv6 address format'' \<rparr>"
      by (rule isIPv6InSubnet_no_colon)
    with a show "isIPInSubnet ip si = \<lparr> result = False, error = Some ''Invalid IPv6 address format'' \<rparr>"
      by (simp add: isIPInSubnet_def)
  }
  {
    assume a: "ipVersion si = IPv4 \<and> includes_str ip '':'' \<and> \<not> includes_str ip ''.''"
    then have "CHR ''.'' \<notin> set ?clean" using sub by (auto simp: includes_single)
    then have "isIPv4InSubnet ?clean si = \<lparr> result = False, error = Some ''Invalid IPv4 address format'' \<rparr>"
      by (rule isIPv4InSubnet_no_dot)
    with a show "isIPInSubnet ip si = \<lparr> result = False, error = Some ''Invalid IPv4 address format'' \<rparr>"
      by (simp add: isIPInSubnet_def)
  }
qed

theorem C9_mismatch_reports_format_error_witness:
  "map_option (isIPInSubnet ''192.168.1.7'') (calculateSubnet ''2001:db8::/64'')
     = Some \<lparr> result = False, error = Some ''Invalid IPv6 address format'' \<rparr>
   \<and> map_option (isIPInSubnet ''2001:db8::7'') (calculateSubnet ''192.168.1.0/24'')
     = Some \<lparr> result = False, error = Some ''Invalid IPv4 address format'' \<rparr>"
proof -
  have v6: "\<not> includes_str ''192.168.1.7'' '':''" by code_simp
  have v4: "includes_str ''2001:db8::7'' '':'' \<and> \<not> includes_str ''2001:db8::7'' ''.''" by code_simp
  show ?thesis
    unfolding calc_192_168_1_0_24 calc_2001_db8_64
    using v6 v4
      C9_mismatch_reports_format_error [of "\<lparr> network = ''2001:0db8:0000:0000:0000:0000:0000:0000'', broadcast = None,
            firstHost = Some ''2001:0db8:0000:0000:0000:0000:0000:0000'',
            lastHost = Some ''2001:0db8:0000:0000:0000:0000:0000:0000'',
            subnetMask = None, wildcardMask = None,
            totalHosts = 9007199254740991, usableHosts = 9007199254740989,
            cidr = 64, ipVersion = IPv6, networkClass = None, isPrivate = Some False,
            prefix = Some ''2001:0db8:0000:0000:0000:0000:0000:0000/64'' \<rparr>" "''192.168.1.7''"]
      C9_mismatch_reports_format_error [of "\<lparr> network = ''192.168.1.0'', broadcast = Some ''192.168.1.255'',
            firstHost = Some ''192.168.1.1'', lastHost = Some ''192.168.1.254'',
            subnetMask = Some ''255.255.255.0'', wildcardMask = Some ''0.0.0.255'',
            totalHosts = 256, usableHosts = 254, cidr = 24, ipVersion = IPv4,
            networkClass = Some ''C'', isPrivate = Some True, prefix = None \<rparr>" "''2001:db8::7''"]
    by simp
qed

text \<open>
  C9 as stated fails: checking the IPv6 address \<open>2001:db8::1\<close> against
  \<open>192.168.1.0/24\<close> gives exactly the result of checking the malformed IPv4 text
  \<open>192.168.1\<close>, so the mismatch is not a distinct error.
\<close>

theorem C9_mismatch_same_as_malformed:
  "map_option (isIPInSubnet ''2001:db8::1'') (calculateSubnet ''192.168.1.0/24'')
     = Some \<lparr> result = False, error = Some ''Invalid IPv4 address format'' \<rparr>
   \<and> map_option (isIPInSubnet ''192.168.1'') (calculateSubnet ''192.168.1.0/24'')
     = Some \<lparr> result = False, error = Some ''Invalid IPv4 address format'' \<rparr>"
  unfolding calc_192_168_1_0_24 by code_simp

end
